theory Spec2Isabelle
  imports Complex_Main
begin

section \<open>The cut-point planner of \<^verbatim>\<open>src/audio/split.py\<close>\<close>

text \<open>
  Timestamps and lengths are seconds. The source computes with Python floats; the model
  takes them as real numbers, so that \<open>+\<close> and the comparisons are exact.
\<close>

type_synonym seconds = real

subsection \<open>Choosing one cut (lines 78 to 95)\<close>

text \<open>
  The first \<^verbatim>\<open>for\<close> loop (lines 80 to 84). The third argument is \<^verbatim>\<open>best_cut\<close>, with
  \<open>None\<close> as in the source. A point inside the window overwrites it, the first point
  above \<^verbatim>\<open>ideal_end\<close> leaves the loop, every other point is passed over.
\<close>

fun scan_window :: "seconds list \<Rightarrow> seconds \<Rightarrow> seconds \<Rightarrow> seconds option \<Rightarrow> seconds option" where
  "scan_window [] min_end ideal_end best_cut = best_cut"
| "scan_window (silence_point # rest) min_end ideal_end best_cut =
     (if min_end \<le> silence_point \<and> silence_point \<le> ideal_end
        then scan_window rest min_end ideal_end (Some silence_point)
      else if silence_point > ideal_end then best_cut
      else scan_window rest min_end ideal_end best_cut)"

text \<open>
  The second \<^verbatim>\<open>for\<close> loop (lines 88 to 91): the first point of the list strictly above
  \<^verbatim>\<open>min_end\<close>, or \<open>None\<close> when the list has none.
\<close>

fun scan_after :: "seconds list \<Rightarrow> seconds \<Rightarrow> seconds option" where
  "scan_after [] min_end = None"
| "scan_after (silence_point # rest) min_end =
     (if silence_point > min_end then Some silence_point else scan_after rest min_end)"

text \<open>Lines 79 to 95 together: the value of \<^verbatim>\<open>best_cut\<close> that line 97 appends.\<close>

definition choose_cut :: "seconds list \<Rightarrow> seconds \<Rightarrow> seconds \<Rightarrow> seconds" where
  "choose_cut silence_points min_end ideal_end =
     (case scan_window silence_points min_end ideal_end None of
        Some best_cut \<Rightarrow> best_cut
      | None \<Rightarrow>
          (case scan_after silence_points min_end of
             Some best_cut \<Rightarrow> best_cut
           | None \<Rightarrow> ideal_end))"

subsection \<open>The loop (lines 69 to 98)\<close>

text \<open>
  The \<^verbatim>\<open>while\<close> loop, with \<^verbatim>\<open>current_start\<close> and \<^verbatim>\<open>cut_points\<close> as its state. Nothing
  in the source bounds the number of rounds, so the loop is a partial function: \<open>None\<close>
  stands for a run that never leaves the loop.
\<close>

partial_function (option) cut_loop ::
  "seconds \<Rightarrow> seconds list \<Rightarrow> seconds \<Rightarrow> seconds \<Rightarrow> seconds \<Rightarrow> seconds list \<Rightarrow> seconds list option"
where
  "cut_loop duration silence_points min_segment max_segment current_start cut_points =
     (if current_start < duration then
        (let ideal_end = current_start + max_segment;
             min_end = current_start + min_segment
         in if ideal_end \<ge> duration then Some cut_points
            else (let best_cut = choose_cut silence_points min_end ideal_end
                  in cut_loop duration silence_points min_segment max_segment
                       best_cut (cut_points @ [best_cut])))
      else Some cut_points)"

declare cut_loop.simps [code]


subsection \<open>The planner (lines 61 to 100)\<close>

definition find_optimal_cut_points ::
  "seconds \<Rightarrow> seconds list \<Rightarrow> seconds \<Rightarrow> seconds \<Rightarrow> seconds list option"
where
  "find_optimal_cut_points duration silence_points min_segment max_segment =
     (if duration \<le> max_segment then Some []
      else map_option (drop 1)
             (cut_loop duration silence_points min_segment max_segment 0 [0]))"


subsection \<open>Reading a result\<close>






section \<open>The duration probe (lines 14 to 26)\<close>

text \<open>
  What \<^verbatim>\<open>json.loads\<close> returns: JSON values, an object as the list of its items.
\<close>

datatype json =
    JNull
  | JBool bool
  | JNum real
  | JStr string
  | JArr "json list"
  | JObj "(string \<times> json) list"











section \<open>The segment writer (lines 102 to 137)\<close>

text \<open>
  One call of \<^verbatim>\<open>ffmpeg\<close>: the input after \<^verbatim>\<open>-i\<close>, the offset after \<^verbatim>\<open>-ss\<close>, the length
  after \<^verbatim>\<open>-t\<close> (\<open>None\<close> when the option is left out, which means up to the end of the
  file), and the output file.
\<close>

record ffmpeg_cmd =
  cmd_input :: string
  cmd_ss :: seconds
  cmd_t :: "seconds option"
  cmd_output :: string

text \<open>The format \<^verbatim>\<open>:03d\<close>: decimal digits, filled with zeros on the left up to three.\<close>

fun digits_of_nat :: "nat \<Rightarrow> string" where
  "digits_of_nat n =
     (if n < 10 then [''0123456789'' ! n]
      else digits_of_nat (n div 10) @ [''0123456789'' ! (n mod 10)])"

definition fmt_03d :: "nat \<Rightarrow> string" where
  "fmt_03d n = replicate (3 - length (digits_of_nat n)) (CHR ''0'') @ digits_of_nat n"

text \<open>
  The \<^verbatim>\<open>for\<close> loop of lines 110 to 137 over \<^verbatim>\<open>cut_points + [None]\<close>, with \<^verbatim>\<open>start_time\<close>
  and \<^verbatim>\<open>segment_num\<close> as its state; the result is the list of the \<^verbatim>\<open>ffmpeg\<close> calls made,
  in order. Whether a call succeeds changes only what is printed. \<^verbatim>\<open>os.path.join\<close> is
  the parameter \<open>path_join\<close>.
\<close>

fun split_loop ::
  "(string \<Rightarrow> string \<Rightarrow> string) \<Rightarrow> string \<Rightarrow> string \<Rightarrow> string \<Rightarrow>
   seconds option list \<Rightarrow> seconds \<Rightarrow> nat \<Rightarrow> ffmpeg_cmd list"
where
  "split_loop path_join input_file output_dir file_stem [] start_time segment_num = []"
| "split_loop path_join input_file output_dir file_stem (end_time # rest) start_time segment_num =
     (let output_file =
            path_join output_dir
              (''split_'' @ file_stem @ ''_'' @ fmt_03d segment_num @ ''.wav'')
      in case end_time of
           None \<Rightarrow>
             [\<lparr>cmd_input = input_file, cmd_ss = start_time, cmd_t = None,
               cmd_output = output_file\<rparr>]
         | Some e \<Rightarrow>
             \<lparr>cmd_input = input_file, cmd_ss = start_time, cmd_t = Some (e - start_time),
               cmd_output = output_file\<rparr>
             # split_loop path_join input_file output_dir file_stem rest e (segment_num + 1))"

text \<open>\<^verbatim>\<open>Path(input_file).stem\<close> is the parameter \<open>path_stem\<close>.\<close>

definition split_audio_file ::
  "(string \<Rightarrow> string) \<Rightarrow> (string \<Rightarrow> string \<Rightarrow> string) \<Rightarrow> string \<Rightarrow> seconds list \<Rightarrow>
   string \<Rightarrow> ffmpeg_cmd list"
where
  "split_audio_file path_stem path_join input_file cut_points output_dir =
     split_loop path_join input_file output_dir (path_stem input_file)
       (map Some cut_points @ [None]) 0 0"

section \<open>Facts about one cut\<close>







text \<open>
  On an ascending list the first scan returns the largest point of the window, when the
  window holds one, and the value it started with otherwise.
\<close>

lemma scan_window_sorted:
  "sorted sil \<Longrightarrow>
   scan_window sil lo hi acc =
     (if {s \<in> set sil. lo \<le> s \<and> s \<le> hi} = {} then acc
      else Some (Max {s \<in> set sil. lo \<le> s \<and> s \<le> hi}))"
proof (induction sil arbitrary: acc)
  case Nil
  then show ?case by simp
next
  case (Cons x xs)
  define W where "W = {s \<in> set xs. lo \<le> s \<and> s \<le> hi}"
  define V where "V = {s \<in> set (x # xs). lo \<le> s \<and> s \<le> hi}"
  from Cons.prems have sx: "sorted xs" and ge: "\<forall>y \<in> set xs. x \<le> y" by auto
  have fin: "finite W" by (simp add: W_def)
  have IH: "scan_window xs lo hi a = (if W = {} then a else Some (Max W))" for a
    unfolding W_def by (rule Cons.IH [OF sx])
  have "scan_window (x # xs) lo hi acc = (if V = {} then acc else Some (Max V))"
  proof (cases "lo \<le> x \<and> x \<le> hi")
    case True
    then have V: "V = insert x W" by (auto simp: V_def W_def)
    from True have step: "scan_window (x # xs) lo hi acc = scan_window xs lo hi (Some x)"
      by simp
    show ?thesis
    proof (cases "W = {}")
      case True
      with V step IH [of "Some x"] show ?thesis by simp
    next
      case False
      from ge have "\<forall>y \<in> W. x \<le> y" by (auto simp: W_def)
      with False fin have "x \<le> Max W" by (meson Max_in)
      with False fin have "Max (insert x W) = Max W" by (simp add: max_def)
      with V step False IH [of "Some x"] show ?thesis by simp
    qed
  next
    case False
    then have V: "V = W" by (auto simp: V_def W_def)
    show ?thesis
    proof (cases "hi < x")
      case True
      with ge have "W = {}" by (fastforce simp: W_def)
      with False True V show ?thesis by simp
    next
      case nhi: False
      with False have "scan_window (x # xs) lo hi acc = scan_window xs lo hi acc" by simp
      with V IH [of acc] show ?thesis by simp
    qed
  qed
  then show ?case unfolding V_def .
qed

lemma choose_cut_sorted_window:
  assumes "sorted sil" and "s \<in> set sil" and "lo \<le> s" and "s \<le> hi"
  shows "choose_cut sil lo hi = Max {s \<in> set sil. lo \<le> s \<and> s \<le> hi}"
proof -
  define W where "W = {s \<in> set sil. lo \<le> s \<and> s \<le> hi}"
  from assms have "W \<noteq> {}" by (auto simp: W_def)
  moreover have "scan_window sil lo hi None = (if W = {} then None else Some (Max W))"
    unfolding W_def by (rule scan_window_sorted [OF assms(1)])
  ultimately have "scan_window sil lo hi None = Some (Max W)" by simp
  then have "choose_cut sil lo hi = Max W" by (simp add: choose_cut_def)
  then show ?thesis unfolding W_def .
qed

section \<open>Facts about the loop\<close>

lemma cut_loop_round:
  "cs < d \<Longrightarrow> cs + mx < d \<Longrightarrow>
   cut_loop d sil mn mx cs cuts =
     cut_loop d sil mn mx (choose_cut sil (cs + mn) (cs + mx))
       (cuts @ [choose_cut sil (cs + mn) (cs + mx)])"
  by (subst cut_loop.simps) (simp add: Let_def)





section \<open>Facts about a chain of cuts\<close>








section \<open>Runs on concrete inputs\<close>

lemma run_spec_example:
  "find_optimal_cut_points 40 [6, 11, 14, 17, 22, 28, 33] 5 15 = Some [14, 28]"
  by code_simp



section \<open>The claims\<close>

text \<open>
  C1. In a round of the loop that does not leave by \<^verbatim>\<open>break\<close>, with an ascending silence
  list that has a point \<open>s\<close> with \<open>min_end \<le> s \<le> ideal_end\<close>, the cut that the round
  chooses, appends and continues from is the largest such point.
\<close>

theorem round_takes_largest_in_window:
  assumes "sorted silence_points"
    and "current_start < duration"
    and "current_start + max_segment < duration"
    and "s \<in> set silence_points"
    and "current_start + min_segment \<le> s"
    and "s \<le> current_start + max_segment"
  shows "choose_cut silence_points (current_start + min_segment) (current_start + max_segment) =
           Max {t \<in> set silence_points.
                  current_start + min_segment \<le> t \<and> t \<le> current_start + max_segment} \<and>
         cut_loop duration silence_points min_segment max_segment current_start cut_points =
           cut_loop duration silence_points min_segment max_segment
             (Max {t \<in> set silence_points.
                     current_start + min_segment \<le> t \<and> t \<le> current_start + max_segment})
             (cut_points @
                [Max {t \<in> set silence_points.
                        current_start + min_segment \<le> t \<and> t \<le> current_start + max_segment}])"
proof -
  have "choose_cut silence_points (current_start + min_segment) (current_start + max_segment) =
          Max {t \<in> set silence_points.
                 current_start + min_segment \<le> t \<and> t \<le> current_start + max_segment}"
    using assms(1,4,5,6) by (rule choose_cut_sorted_window)
  with cut_loop_round [OF assms(2,3), of silence_points min_segment cut_points]
  show ?thesis by simp
qed

theorem round_takes_largest_in_window_witness:
  "sorted [6, 11, 14, 17, 22, 28, 33 :: real] \<and> (0 :: real) < 40 \<and> (0 :: real) + 15 < 40 \<and>
   (11 :: real) \<in> set [6, 11, 14, 17, 22, 28, 33] \<and> (0 :: real) + 5 \<le> 11 \<and>
   (11 :: real) \<le> 0 + 15 \<and>
   choose_cut [6, 11, 14, 17, 22, 28, 33] (0 + 5) (0 + 15) = 14 \<and>
   cut_loop 40 [6, 11, 14, 17, 22, 28, 33] 5 15 0 [0] =
     cut_loop 40 [6, 11, 14, 17, 22, 28, 33] 5 15 14 [0, 14]"
proof -
  have h1: "sorted [6, 11, 14, 17, 22, 28, 33 :: real]" by simp
  have h2: "(0 :: real) < 40" by simp
  have h3: "(0 :: real) + 15 < 40" by simp
  have h4: "(11 :: real) \<in> set [6, 11, 14, 17, 22, 28, 33]" by simp
  have h5: "(0 :: real) + 5 \<le> 11" by simp
  have h6: "(11 :: real) \<le> 0 + 15" by simp
  have "{t \<in> set [6, 11, 14, 17, 22, 28, 33 :: real]. 0 + 5 \<le> t \<and> t \<le> 0 + 15} = {6, 11, 14}"
    by auto
  then have m: "Max {t \<in> set [6, 11, 14, 17, 22, 28, 33 :: real]. 0 + 5 \<le> t \<and> t \<le> 0 + 15} = 14"
    by simp
  from round_takes_largest_in_window [OF h1 h2 h3 h4 h5 h6, of "[0]"] h1 h2 h3 h4 h5 h6
  show ?thesis unfolding m by simp
qed

text \<open>
  C2. On \<open>duration = 40\<close>, silence \<open>[6, 11, 14, 17, 22, 28, 33]\<close>, \<open>min_segment = 5\<close> and
  \<open>max_segment = 15\<close> the planner does not return \<open>[11, 22, 33]\<close>: the window \<open>[5, 15]\<close>
  holds \<open>14\<close>, which is larger than \<open>11\<close>.
\<close>

theorem spec_example_counterexample:
  "find_optimal_cut_points 40 [6, 11, 14, 17, 22, 28, 33] 5 15 \<noteq> Some [11, 22, 33]"
  by (simp add: run_spec_example)

text \<open>
  C2, amended. On that input the planner returns \<open>[14, 28]\<close>: \<open>14\<close> is the largest point
  in \<open>[5, 15]\<close>, \<open>28\<close> the largest in \<open>[19, 29]\<close>, and \<open>28 + 15\<close> is past the end.
\<close>

theorem spec_example_cuts:
  "find_optimal_cut_points 40 [6, 11, 14, 17, 22, 28, 33] 5 15 = Some [14, 28]"
  by (rule run_spec_example)

















text \<open>
  C10. With no cut points the segment writer makes exactly one call of \<^verbatim>\<open>ffmpeg\<close>: from
  offset \<open>0\<close>, with no length (so up to the end of the input), into the file
  \<^verbatim>\<open>split_<stem>_000.wav\<close> of the output directory.
\<close>

theorem no_cuts_one_whole_segment:
  "split_audio_file path_stem path_join input_file [] output_dir =
     [\<lparr>cmd_input = input_file, cmd_ss = 0, cmd_t = None,
       cmd_output = path_join output_dir (''split_'' @ path_stem input_file @ ''_000.wav'')\<rparr>]"
  by (simp add: split_audio_file_def fmt_03d_def numeral_3_eq_3)

end
